theory Spec2Isabelle
  imports Complex_Main "HOL-Library.Multiset" "HOL-Library.Char_ord" "HOL-Library.List_Lexorder"
begin

section \<open>Data model (checker.go, report.go)\<close>

text \<open>
  Go strings are byte sequences: \<^typ>\<open>string\<close> is a list of 8-bit characters, compared
  lexicographically by byte value (the order Go's \<open><\<close> on strings uses). Bytes outside
  ASCII are written \<open>CHR 0x..\<close>. A \<open>float64\<close> is modelled by \<^typ>\<open>real\<close>: comparisons agree
  on all finite values; NaN, the infinities and rounding of sums are outside the model.
  A \<open>time.Time\<close> is a natural number read from the clock by the caller.
\<close>

record CostInfo =
  HasPricing :: bool
  UnlimitedCost :: bool
  EstimatedCost :: real
  Currency :: string
  PricingDetails :: string

record APIResult =
  Name :: string
  DisplayName :: string
  Status :: string
  Enabled :: bool
  CostInfo :: CostInfo
  CheckedAt :: nat
  Error :: string

record SummaryInfo =
  TotalAPIs :: nat
  EnabledCount :: nat
  DisabledCount :: nat
  ErrorCount :: nat
  TotalCost :: real
  Currency :: string

record CostAnalysis =
  TotalEstimatedCost :: real
  UnlimitedCostAPIs :: "APIResult list"
  HighCostAPIs :: "APIResult list"
  CostBreakdown :: "string \<rightharpoonup> real"

record Report =
  Summary :: SummaryInfo
  EnabledAPIs :: "APIResult list"
  DisabledAPIs :: "APIResult list"
  CostAnalysis :: CostAnalysis
  Recommendations :: "string list"
  GeneratedAt :: nat

text \<open>The zero value of a Go struct: every field at the zero value of its type.\<close>

definition zero_CostInfo :: CostInfo where
  "zero_CostInfo = \<lparr>HasPricing = False, UnlimitedCost = False, EstimatedCost = 0,
     Currency = [], PricingDetails = []\<rparr>"

definition zero_APIResult :: APIResult where
  "zero_APIResult = \<lparr>Name = [], DisplayName = [], Status = [], Enabled = False,
     CostInfo = zero_CostInfo, CheckedAt = 0, Error = []\<rparr>"

section \<open>Formatting verbs of fmt.Sprintf\<close>

definition digit_char :: "nat \<Rightarrow> char" where
  "digit_char d = ''0123456789'' ! (d mod 10)"

text \<open>\<open>%d\<close> on a non-negative int (every use formats a \<open>len\<close>).\<close>

fun fmt_d :: "nat \<Rightarrow> string" where
  "fmt_d n = (if n < 10 then [digit_char n] else fmt_d (n div 10) @ [digit_char n])"

declare fmt_d.simps [simp del]

definition round_half_even :: "real \<Rightarrow> int" where
  "round_half_even x =
     (let f = \<lfloor>x\<rfloor>; d = x - of_int f
      in if d < 1 / 2 then f else if 1 / 2 < d then f + 1 else if even f then f else f + 1)"

text \<open>\<open>%.2f\<close>: two decimals of the exact value, halves rounded to even, sign first.\<close>

definition fmt_f2 :: "real \<Rightarrow> string" where
  "fmt_f2 x =
     (let c = nat (round_half_even (\<bar>x\<bar> * 100))
      in (if x < 0 then ''-'' else []) @ fmt_d (c div 100) @ ''.'' @
         [digit_char (c div 10), digit_char c])"

section \<open>sort.Slice\<close>

text \<open>
  \<open>sort.Slice\<close> belongs to Go's standard library, not to the repository. Its documentation
  promises a permutation of the slice that is ordered by \<open>less\<close> whenever \<open>less\<close> is a strict
  weak ordering, and states that the sort is not guaranteed to be stable. The report code
  is therefore parameterised by the sorting function, and \<open>sort_Slice_contract\<close> is what
  may be assumed of it.
\<close>

type_synonym sorter = "(APIResult \<Rightarrow> APIResult \<Rightarrow> bool) \<Rightarrow> APIResult list \<Rightarrow> APIResult list"






section \<open>GenerateReport (report.go)\<close>

text \<open>The local variables of \<open>GenerateReport\<close> that its loop over the results updates.\<close>

record report_vars =
  enabledAPIs :: "APIResult list"
  disabledAPIs :: "APIResult list"
  errorCount :: nat
  totalCost :: real
  unlimitedCostAPIs :: "APIResult list"
  highCostAPIs :: "APIResult list"
  costBreakdown :: "string \<rightharpoonup> real"

definition report_vars_init :: report_vars where
  "report_vars_init = \<lparr>enabledAPIs = [], disabledAPIs = [], errorCount = 0, totalCost = 0,
     unlimitedCostAPIs = [], highCostAPIs = [], costBreakdown = Map.empty\<rparr>"

text \<open>One iteration of \<open>for _, result := range results\<close>.\<close>

definition report_body :: "report_vars \<Rightarrow> APIResult \<Rightarrow> report_vars" where
  "report_body v result =
     (if Error result \<noteq> [] then v\<lparr>errorCount := errorCount v + 1\<rparr>
      else if Enabled result then
        (let v1 = v\<lparr>enabledAPIs := enabledAPIs v @ [result]\<rparr>
         in if HasPricing (CostInfo result) then
              (let v2 = v1\<lparr>totalCost := totalCost v1 + EstimatedCost (CostInfo result),
                             costBreakdown := (costBreakdown v1)
                               (DisplayName result \<mapsto> EstimatedCost (CostInfo result))\<rparr>;
                   v3 = (if UnlimitedCost (CostInfo result)
                         then v2\<lparr>unlimitedCostAPIs := unlimitedCostAPIs v2 @ [result]\<rparr>
                         else v2)
               in if 50 < EstimatedCost (CostInfo result)
                  then v3\<lparr>highCostAPIs := highCostAPIs v3 @ [result]\<rparr>
                  else v3)
            else v1)
      else v\<lparr>disabledAPIs := disabledAPIs v @ [result]\<rparr>)"

definition report_loop :: "APIResult list \<Rightarrow> report_vars" where
  "report_loop results = foldl report_body report_vars_init results"

subsection \<open>generateRecommendations\<close>

definition unlimited_heading :: "nat \<Rightarrow> string" where
  "unlimited_heading n =
     [CHR 0xE2, CHR 0x9A, CHR 0xA0, CHR 0xEF, CHR 0xB8, CHR 0x8F] @ ''  CRITICAL: Found '' @
     fmt_d n @
     '' APIs with unlimited cost potential. Review and set usage limits immediately:''"

definition unlimited_line :: "APIResult \<Rightarrow> string" where
  "unlimited_line api =
     ''   - '' @ DisplayName api @ '': '' @ PricingDetails (CostInfo api)"

definition high_heading :: "nat \<Rightarrow> string" where
  "high_heading n =
     [CHR 0xF0, CHR 0x9F, CHR 0x92, CHR 0xB0] @ '' High cost APIs detected ('' @ fmt_d n @
     '' APIs with >$50 estimated cost):''"

definition high_line :: "APIResult \<Rightarrow> string" where
  "high_line api =
     ''   - '' @ DisplayName api @ '': $'' @ fmt_f2 (EstimatedCost (CostInfo api)) @ ''/month''"

definition total_line :: "real \<Rightarrow> string" where
  "total_line c =
     [CHR 0xF0, CHR 0x9F, CHR 0x92, CHR 0xB8] @ '' Total estimated monthly cost is high: $'' @
     fmt_f2 c @ ''. Consider reviewing usage patterns.''"

definition disabled_line :: "nat \<Rightarrow> string" where
  "disabled_line n =
     [CHR 0xF0, CHR 0x9F, CHR 0x94, CHR 0x92] @ '' '' @ fmt_d n @
     '' APIs are currently disabled. Review if any are needed for your application.''"

definition advice_billing :: string where
  "advice_billing = [CHR 0xF0, CHR 0x9F, CHR 0x93, CHR 0x8A] @
     '' Set up billing alerts and budget limits in Google Cloud Console''"

definition advice_monitor :: string where
  "advice_monitor = [CHR 0xF0, CHR 0x9F, CHR 0x94, CHR 0x8D] @
     '' Regularly monitor API usage and costs''"

definition advice_quotas :: string where
  "advice_quotas = [CHR 0xE2, CHR 0x9A, CHR 0xA1] @
     '' Consider using quotas and rate limiting for high-cost APIs''"

text \<open>
  The function appends to \<open>recommendations\<close> statement by statement; each \<open>r\<close> below is the
  slice after one statement, and each \<open>for\<close> loop is a left fold of \<open>append\<close>.
\<close>

definition generateRecommendations :: "Report \<Rightarrow> string list" where
  "generateRecommendations report =
     (let r0 = [];
          unl = UnlimitedCostAPIs (CostAnalysis report);
          r1 = (if 0 < length unl
                then foldl (\<lambda>r api. r @ [unlimited_line api])
                       (r0 @ [unlimited_heading (length unl)]) unl
                else r0);
          high = HighCostAPIs (CostAnalysis report);
          r2 = (if 0 < length high
                then foldl (\<lambda>r api. r @ [high_line api])
                       (r1 @ [high_heading (length high)]) high
                else r1);
          r3 = (if 500 < TotalCost (Summary report)
                then r2 @ [total_line (TotalCost (Summary report))] else r2);
          r4 = (if 0 < length (DisabledAPIs report)
                then r3 @ [disabled_line (length (DisabledAPIs report))] else r3);
          r5 = r4 @ [advice_billing];
          r6 = r5 @ [advice_monitor];
          r7 = r6 @ [advice_quotas]
      in r7)"

subsection \<open>GenerateReport\<close>

definition less_cost_desc :: "APIResult \<Rightarrow> APIResult \<Rightarrow> bool" where
  "less_cost_desc a b \<longleftrightarrow> EstimatedCost (CostInfo b) < EstimatedCost (CostInfo a)"

definition less_display_name :: "APIResult \<Rightarrow> APIResult \<Rightarrow> bool" where
  "less_display_name a b \<longleftrightarrow> DisplayName a < DisplayName b"

text \<open>
  \<open>sort_Slice\<close> stands for the library's \<open>sort.Slice\<close>, \<open>now\<close> for the value of \<open>time.Now()\<close>.
\<close>

definition GenerateReport :: "sorter \<Rightarrow> nat \<Rightarrow> APIResult list \<Rightarrow> Report" where
  "GenerateReport sort_Slice now results =
     (let v = report_loop results;
          high = sort_Slice less_cost_desc (highCostAPIs v);
          unl = sort_Slice less_display_name (unlimitedCostAPIs v);
          report = \<lparr>Summary = \<lparr>TotalAPIs = length results,
                                EnabledCount = length (enabledAPIs v),
                                DisabledCount = length (disabledAPIs v),
                                ErrorCount = errorCount v,
                                TotalCost = totalCost v,
                                Currency = ''USD''\<rparr>,
                    EnabledAPIs = enabledAPIs v,
                    DisabledAPIs = disabledAPIs v,
                    CostAnalysis = \<lparr>TotalEstimatedCost = totalCost v,
                                     UnlimitedCostAPIs = unl,
                                     HighCostAPIs = high,
                                     CostBreakdown = costBreakdown v\<rparr>,
                    Recommendations = [],
                    GeneratedAt = now\<rparr>
      in report\<lparr>Recommendations := generateRecommendations report\<rparr>)"

section \<open>The checker (checker.go)\<close>

text \<open>A Go \<open>error\<close> is represented by its message, the string \<open>err.Error()\<close> returns.\<close>

type_synonym error = string

subsection \<open>The simulated probe source\<close>

definition catalogue :: "string list" where
  "catalogue = [
     ''compute.googleapis.com'', ''storage.googleapis.com'', ''bigquery.googleapis.com'',
     ''pubsub.googleapis.com'', ''cloudfunctions.googleapis.com'', ''cloudrun.googleapis.com'',
     ''container.googleapis.com'', ''datastore.googleapis.com'', ''firestore.googleapis.com'',
     ''cloudsql.googleapis.com'', ''cloudbuild.googleapis.com'', ''cloudtasks.googleapis.com'',
     ''cloudscheduler.googleapis.com'', ''cloudkms.googleapis.com'', ''cloudiot.googleapis.com'',
     ''cloudtrace.googleapis.com'', ''clouddebugger.googleapis.com'',
     ''cloudprofiler.googleapis.com'', ''cloudmonitoring.googleapis.com'',
     ''cloudlogging.googleapis.com'', ''translate.googleapis.com'', ''vision.googleapis.com'',
     ''speech.googleapis.com'', ''language.googleapis.com'', ''ml.googleapis.com'',
     ''automl.googleapis.com'', ''dataflow.googleapis.com'', ''dataproc.googleapis.com'',
     ''dataprep.googleapis.com'', ''datalab.googleapis.com'', ''datacatalog.googleapis.com'',
     ''datastudio.googleapis.com'', ''analytics.googleapis.com'',
     ''analyticsadmin.googleapis.com'', ''searchconsole.googleapis.com'',
     ''webmasters.googleapis.com'', ''indexing.googleapis.com'', ''customsearch.googleapis.com'',
     ''pagespeedonline.googleapis.com'', ''siteverification.googleapis.com'',
     ''websecurityscanner.googleapis.com'', ''clouderrorreporting.googleapis.com'',
     ''cloudresourcemanager.googleapis.com'', ''iam.googleapis.com'',
     ''serviceusage.googleapis.com'', ''cloudbilling.googleapis.com'',
     ''billingbudgets.googleapis.com'', ''recommender.googleapis.com'',
     ''recommendationengine.googleapis.com'', ''retail.googleapis.com'',
     ''documentai.googleapis.com'', ''videointelligence.googleapis.com'',
     ''videointelligence.googleapis.com'', ''gameservices.googleapis.com'',
     ''playablelocations.googleapis.com'', ''places.googleapis.com'',
     ''geocoding.googleapis.com'', ''geolocation.googleapis.com'', ''maps.googleapis.com'',
     ''directions.googleapis.com'', ''distancematrix.googleapis.com'',
     ''elevation.googleapis.com'', ''timezone.googleapis.com'', ''staticmap.googleapis.com'',
     ''streetview.googleapis.com'', ''roads.googleapis.com'', ''fcm.googleapis.com'',
     ''firebase.googleapis.com'', ''firebaseappcheck.googleapis.com'',
     ''firebaseauth.googleapis.com'', ''firebasehosting.googleapis.com'',
     ''firebaseml.googleapis.com'', ''firebaserules.googleapis.com'',
     ''firebasestorage.googleapis.com'', ''identitytoolkit.googleapis.com'',
     ''securetoken.googleapis.com'', ''appengine.googleapis.com'', ''cloudapis.googleapis.com'',
     ''cloudtrace.googleapis.com'', ''clouddebugger.googleapis.com'',
     ''cloudprofiler.googleapis.com'', ''cloudmonitoring.googleapis.com'',
     ''cloudlogging.googleapis.com'', ''cloudbuild.googleapis.com'',
     ''cloudtasks.googleapis.com'', ''cloudscheduler.googleapis.com'',
     ''cloudkms.googleapis.com'', ''cloudiot.googleapis.com'', ''cloudtrace.googleapis.com'',
     ''clouddebugger.googleapis.com'', ''cloudprofiler.googleapis.com'',
     ''cloudmonitoring.googleapis.com'', ''cloudlogging.googleapis.com'']"

definition getAvailableAPIs :: "error + string list" where
  "getAvailableAPIs = Inr catalogue"

definition enabledAPIs_map :: "(string \<times> bool) list" where
  "enabledAPIs_map = [
     (''compute.googleapis.com'', True), (''storage.googleapis.com'', True),
     (''bigquery.googleapis.com'', True), (''pubsub.googleapis.com'', False),
     (''cloudfunctions.googleapis.com'', True), (''cloudrun.googleapis.com'', False),
     (''container.googleapis.com'', True), (''datastore.googleapis.com'', False),
     (''firestore.googleapis.com'', True), (''cloudsql.googleapis.com'', True)]"

definition isAPIEnabled :: "string \<Rightarrow> error + bool" where
  "isAPIEnabled apiName =
     (case map_of enabledAPIs_map apiName of
        Some enabled \<Rightarrow> Inr enabled
      | None \<Rightarrow> Inr True)"

definition displayNames :: "(string \<times> string) list" where
  "displayNames = [
     (''compute.googleapis.com'', ''Compute Engine API''),
     (''storage.googleapis.com'', ''Cloud Storage API''),
     (''bigquery.googleapis.com'', ''BigQuery API''),
     (''pubsub.googleapis.com'', ''Cloud Pub/Sub API''),
     (''cloudfunctions.googleapis.com'', ''Cloud Functions API''),
     (''cloudrun.googleapis.com'', ''Cloud Run API''),
     (''container.googleapis.com'', ''Kubernetes Engine API''),
     (''datastore.googleapis.com'', ''Cloud Datastore API''),
     (''firestore.googleapis.com'', ''Cloud Firestore API''),
     (''cloudsql.googleapis.com'', ''Cloud SQL API''),
     (''cloudbuild.googleapis.com'', ''Cloud Build API''),
     (''cloudtasks.googleapis.com'', ''Cloud Tasks API''),
     (''cloudscheduler.googleapis.com'', ''Cloud Scheduler API''),
     (''cloudkms.googleapis.com'', ''Cloud KMS API''),
     (''cloudiot.googleapis.com'', ''Cloud IoT API''),
     (''translate.googleapis.com'', ''Cloud Translation API''),
     (''vision.googleapis.com'', ''Cloud Vision API''),
     (''speech.googleapis.com'', ''Cloud Speech API''),
     (''language.googleapis.com'', ''Natural Language API''),
     (''ml.googleapis.com'', ''Machine Learning API''),
     (''automl.googleapis.com'', ''AutoML API''),
     (''dataflow.googleapis.com'', ''Dataflow API''),
     (''dataproc.googleapis.com'', ''Dataproc API''),
     (''analytics.googleapis.com'', ''Google Analytics API''),
     (''maps.googleapis.com'', ''Maps JavaScript API''),
     (''firebase.googleapis.com'', ''Firebase API''),
     (''appengine.googleapis.com'', ''App Engine API'')]"

definition getAPIDisplayName :: "string \<Rightarrow> string" where
  "getAPIDisplayName apiName =
     (case map_of displayNames apiName of
        Some displayName \<Rightarrow> displayName
      | None \<Rightarrow> apiName)"

definition unlimited_warning :: string where
  "unlimited_warning = [CHR 0xE2, CHR 0x9A, CHR 0xA0, CHR 0xEF, CHR 0xB8, CHR 0x8F] @
     '' WARNING: No usage limits - potential unlimited costs''"

definition costData :: "(string \<times> CostInfo) list" where
  "costData = [
     (''compute.googleapis.com'',
      \<lparr>HasPricing = True, UnlimitedCost = False, EstimatedCost = 150, Currency = ''USD'',
       PricingDetails = ''Pay per use - $0.05 per hour for standard instances''\<rparr>),
     (''storage.googleapis.com'',
      \<lparr>HasPricing = True, UnlimitedCost = False, EstimatedCost = 25, Currency = ''USD'',
       PricingDetails = ''Pay per use - $0.02 per GB per month''\<rparr>),
     (''bigquery.googleapis.com'',
      \<lparr>HasPricing = True, UnlimitedCost = True, EstimatedCost = 0, Currency = ''USD'',
       PricingDetails = unlimited_warning\<rparr>),
     (''pubsub.googleapis.com'',
      \<lparr>HasPricing = True, UnlimitedCost = False, EstimatedCost = 10, Currency = ''USD'',
       PricingDetails = ''Pay per use - $0.40 per million messages''\<rparr>),
     (''cloudfunctions.googleapis.com'',
      \<lparr>HasPricing = True, UnlimitedCost = False, EstimatedCost = 5, Currency = ''USD'',
       PricingDetails = ''Pay per use - $0.40 per million invocations''\<rparr>),
     (''firestore.googleapis.com'',
      \<lparr>HasPricing = True, UnlimitedCost = True, EstimatedCost = 0, Currency = ''USD'',
       PricingDetails = unlimited_warning\<rparr>),
     (''maps.googleapis.com'',
      \<lparr>HasPricing = True, UnlimitedCost = False, EstimatedCost = 100, Currency = ''USD'',
       PricingDetails = ''Pay per use - $5.00 per 1000 requests''\<rparr>),
     (''datastore.googleapis.com'',
      \<lparr>HasPricing = True, UnlimitedCost = True, EstimatedCost = 0, Currency = ''USD'',
       PricingDetails = unlimited_warning\<rparr>),
     (''cloudsql.googleapis.com'',
      \<lparr>HasPricing = True, UnlimitedCost = False, EstimatedCost = 75, Currency = ''USD'',
       PricingDetails = ''Pay per use - $0.10 per hour for standard instances''\<rparr>),
     (''container.googleapis.com'',
      \<lparr>HasPricing = True, UnlimitedCost = False, EstimatedCost = 50, Currency = ''USD'',
       PricingDetails = ''Pay per use - $0.10 per hour for standard clusters''\<rparr>),
     (''vision.googleapis.com'',
      \<lparr>HasPricing = True, UnlimitedCost = False, EstimatedCost = 30, Currency = ''USD'',
       PricingDetails = ''Pay per use - $1.50 per 1000 requests''\<rparr>),
     (''speech.googleapis.com'',
      \<lparr>HasPricing = True, UnlimitedCost = False, EstimatedCost = 20, Currency = ''USD'',
       PricingDetails = ''Pay per use - $0.006 per 15 seconds''\<rparr>),
     (''translate.googleapis.com'',
      \<lparr>HasPricing = True, UnlimitedCost = False, EstimatedCost = 15, Currency = ''USD'',
       PricingDetails = ''Pay per use - $20 per million characters''\<rparr>),
     (''ml.googleapis.com'',
      \<lparr>HasPricing = True, UnlimitedCost = True, EstimatedCost = 0, Currency = ''USD'',
       PricingDetails = unlimited_warning\<rparr>),
     (''automl.googleapis.com'',
      \<lparr>HasPricing = True, UnlimitedCost = True, EstimatedCost = 0, Currency = ''USD'',
       PricingDetails = unlimited_warning\<rparr>),
     (''dataflow.googleapis.com'',
      \<lparr>HasPricing = True, UnlimitedCost = False, EstimatedCost = 200, Currency = ''USD'',
       PricingDetails = ''Pay per use - $0.06 per vCPU per hour''\<rparr>),
     (''dataproc.googleapis.com'',
      \<lparr>HasPricing = True, UnlimitedCost = False, EstimatedCost = 120, Currency = ''USD'',
       PricingDetails = ''Pay per use - $0.10 per vCPU per hour''\<rparr>),
     (''analytics.googleapis.com'',
      \<lparr>HasPricing = True, UnlimitedCost = False, EstimatedCost = 8, Currency = ''USD'',
       PricingDetails = ''Pay per use - $0.50 per 1000 requests''\<rparr>),
     (''firebase.googleapis.com'',
      \<lparr>HasPricing = True, UnlimitedCost = True, EstimatedCost = 0, Currency = ''USD'',
       PricingDetails = unlimited_warning\<rparr>),
     (''appengine.googleapis.com'',
      \<lparr>HasPricing = True, UnlimitedCost = False, EstimatedCost = 40, Currency = ''USD'',
       PricingDetails = ''Pay per use - $0.05 per instance hour''\<rparr>)]"

definition default_CostInfo :: CostInfo where
  "default_CostInfo = \<lparr>HasPricing = False, UnlimitedCost = False, EstimatedCost = 0,
     Currency = ''USD'', PricingDetails = ''No pricing information available''\<rparr>"

definition getCostInfo :: "string \<Rightarrow> error + CostInfo" where
  "getCostInfo apiName =
     (case map_of costData apiName of
        Some costInfo \<Rightarrow> Inr costInfo
      | None \<Rightarrow> Inr default_CostInfo)"

subsection \<open>The HTTP-backed probe of the second copy of the checker\<close>

text \<open>
  The repository holds a second copy of the checker whose \<open>isAPIEnabled\<close> asks the Service
  Usage or Discovery endpoint unless no token is configured, and whose static catalogue is
  shorter. The HTTP client is an oracle from the request URL to what the \<open>GET\<close> produced:
  a failure of \<open>http.NewRequest\<close>, a failure of \<open>client.Do\<close>, or a status code with the
  outcome of decoding the body (the \<open>state\<close> member when it is a string).
\<close>

datatype json_body = DecodeError error | Decoded "string option"

datatype http_result = NewRequestError error | DoError error | Response nat json_body

record GoogleAPIChecker =
  token :: string
  projectID :: string
  threads :: int
  client :: "string \<Rightarrow> http_result"
  useRealAPI :: bool

definition NewGoogleAPIChecker ::
  "string \<Rightarrow> string \<Rightarrow> int \<Rightarrow> (string \<Rightarrow> http_result) \<Rightarrow> GoogleAPIChecker" where
  "NewGoogleAPIChecker tok project n http =
     \<lparr>token = tok, projectID = project, threads = n, client = http, useRealAPI = (tok \<noteq> [])\<rparr>"

definition TrimSuffix :: "string \<Rightarrow> string \<Rightarrow> string" where
  "TrimSuffix s suf =
     (if length suf \<le> length s \<and> drop (length s - length suf) s = suf
      then take (length s - length suf) s else s)"

definition checkAPIEnabledReal :: "GoogleAPIChecker \<Rightarrow> string \<Rightarrow> error + bool" where
  "checkAPIEnabledReal c apiName =
     (let url = (if projectID c \<noteq> []
                 then ''https://serviceusage.googleapis.com/v1/projects/'' @ projectID c @
                      ''/services/'' @ apiName
                 else ''https://www.googleapis.com/discovery/v1/apis/'' @
                      TrimSuffix apiName ''.googleapis.com'' @ ''/v1'')
      in case client c url of
           NewRequestError err \<Rightarrow> Inl (''failed to create request: '' @ err)
         | DoError err \<Rightarrow> Inl (''failed to make API request: '' @ err)
         | Response code body \<Rightarrow>
             if projectID c \<noteq> [] then
               (if code = 200 then
                  (case body of
                     DecodeError err \<Rightarrow> Inl (''failed to parse response: '' @ err)
                   | Decoded (Some state) \<Rightarrow> Inr (state = ''ENABLED'')
                   | Decoded None \<Rightarrow> Inr True)
                else if code = 404 then Inr False
                else Inl (''API request failed with status: '' @ fmt_d code))
             else
               (if code = 200 then Inr False
                else if code = 404 then Inr False
                else Inl (''API request failed with status: '' @ fmt_d code)))"

text \<open>\<open>isAPIEnabled\<close> of the second copy; its simulated branch has the body of the first.\<close>

definition isAPIEnabled' :: "GoogleAPIChecker \<Rightarrow> string \<Rightarrow> error + bool" where
  "isAPIEnabled' c apiName =
     (if useRealAPI c then checkAPIEnabledReal c apiName else isAPIEnabled apiName)"

definition getAvailableAPIsStatic :: "error + string list" where
  "getAvailableAPIsStatic = Inr [
     ''compute.googleapis.com'', ''storage.googleapis.com'', ''bigquery.googleapis.com'',
     ''pubsub.googleapis.com'', ''cloudfunctions.googleapis.com'', ''cloudrun.googleapis.com'',
     ''container.googleapis.com'', ''datastore.googleapis.com'', ''firestore.googleapis.com'',
     ''cloudsql.googleapis.com'', ''cloudbuild.googleapis.com'', ''cloudtasks.googleapis.com'',
     ''cloudscheduler.googleapis.com'', ''cloudkms.googleapis.com'', ''cloudiot.googleapis.com'',
     ''cloudtrace.googleapis.com'', ''clouddebugger.googleapis.com'',
     ''cloudprofiler.googleapis.com'', ''cloudmonitoring.googleapis.com'',
     ''cloudlogging.googleapis.com'', ''translate.googleapis.com'', ''vision.googleapis.com'',
     ''speech.googleapis.com'', ''language.googleapis.com'', ''ml.googleapis.com'',
     ''automl.googleapis.com'', ''dataflow.googleapis.com'', ''dataproc.googleapis.com'',
     ''dataprep.googleapis.com'', ''datalab.googleapis.com'', ''datacatalog.googleapis.com'',
     ''datastudio.googleapis.com'', ''analytics.googleapis.com'',
     ''analyticsadmin.googleapis.com'', ''searchconsole.googleapis.com'',
     ''webmasters.googleapis.com'', ''indexing.googleapis.com'', ''customsearch.googleapis.com'',
     ''pagespeedonline.googleapis.com'', ''siteverification.googleapis.com'',
     ''websecurityscanner.googleapis.com'', ''clouderrorreporting.googleapis.com'',
     ''cloudresourcemanager.googleapis.com'', ''iam.googleapis.com'',
     ''serviceusage.googleapis.com'', ''cloudbilling.googleapis.com'',
     ''billingbudgets.googleapis.com'', ''recommender.googleapis.com'',
     ''recommendationengine.googleapis.com'', ''retail.googleapis.com'',
     ''documentai.googleapis.com'', ''videointelligence.googleapis.com'',
     ''gameservices.googleapis.com'', ''playablelocations.googleapis.com'',
     ''places.googleapis.com'', ''geocoding.googleapis.com'', ''geolocation.googleapis.com'',
     ''maps.googleapis.com'', ''directions.googleapis.com'', ''distancematrix.googleapis.com'',
     ''elevation.googleapis.com'', ''timezone.googleapis.com'', ''staticmap.googleapis.com'',
     ''streetview.googleapis.com'', ''roads.googleapis.com'', ''fcm.googleapis.com'',
     ''firebase.googleapis.com'', ''firebaseappcheck.googleapis.com'',
     ''firebaseauth.googleapis.com'', ''firebasehosting.googleapis.com'',
     ''firebaseml.googleapis.com'', ''firebaserules.googleapis.com'',
     ''firebasestorage.googleapis.com'', ''identitytoolkit.googleapis.com'',
     ''securetoken.googleapis.com'', ''appengine.googleapis.com'', ''cloudapis.googleapis.com'']"

subsection \<open>checkSingleAPI\<close>

text \<open>
  \<open>checkSingleAPI\<close> is the same in both copies; the method \<open>isAPIEnabled\<close> it calls is not,
  so it is the argument \<open>probe\<close>. \<open>now\<close> is the value of \<open>time.Now()\<close>.
\<close>

definition checkSingleAPI :: "(string \<Rightarrow> error + bool) \<Rightarrow> nat \<Rightarrow> string \<Rightarrow> APIResult" where
  "checkSingleAPI probe now apiName =
     (let result = zero_APIResult\<lparr>Name := apiName, CheckedAt := now\<rparr>
      in case probe apiName of
           Inl err \<Rightarrow> result\<lparr>Error := err, Status := ''ERROR''\<rparr>
         | Inr enabled \<Rightarrow>
             (let result1 = result\<lparr>Enabled := enabled\<rparr>;
                  result2 = (if enabled then result1\<lparr>Status := ''ENABLED''\<rparr>
                             else result1\<lparr>Status := ''DISABLED''\<rparr>);
                  result3 = result2\<lparr>DisplayName := getAPIDisplayName apiName\<rparr>
              in case getCostInfo apiName of
                   Inl err \<Rightarrow> result3\<lparr>CostInfo := zero_CostInfo\<lparr>HasPricing := False\<rparr>\<rparr>
                 | Inr costInfo \<Rightarrow> result3\<lparr>CostInfo := costInfo\<rparr>))"

subsection \<open>The worker pool of CheckAllAPIs\<close>

text \<open>
  \<open>CheckAllAPIs\<close> starts \<open>threads\<close> worker goroutines, a goroutine that sends every catalogue
  entry on the channel \<open>jobs\<close> and closes it, a goroutine that waits for the wait group and
  closes the channel \<open>results\<close>, and drains \<open>results\<close> into \<open>allResults\<close> itself. The
  goroutines interleave at their channel operations. A \<open>pool\<close> is the state between two
  such operations; an \<open>event\<close> is one operation of one goroutine, and \<open>fire\<close> performs it
  when the goroutine is able to proceed (\<open>None\<close> when it would block or has ended). A
  schedule is the list of events in the order the scheduler lets them happen. The progress
  bar, which only prints, is left out.
\<close>

datatype worker_state = Receiving | Sending APIResult | Exited

record pool =
  unsent :: "string list"
  jobs :: "string list"
  jobs_closed :: bool
  workers :: "worker_state list"
  results :: "APIResult list"
  results_closed :: bool
  allResults :: "APIResult list"
  returned :: bool
  capacity :: nat

datatype event =
    SendJob
  | CloseJobs
  | Receive nat nat
  | Deliver nat
  | Exit nat
  | CloseResults
  | Collect
  | Return

text \<open>
  Both channels are made with capacity \<open>len(apis)\<close>; a send blocks while the buffer is full.
  \<open>Receive i now\<close> is worker \<open>i\<close> taking the next job and running \<open>checkSingleAPI\<close> on it at
  clock reading \<open>now\<close>; \<open>Deliver i\<close> is its send on \<open>results\<close>; \<open>Exit i\<close> is its \<open>range jobs\<close>
  ending on the closed, drained channel, followed by the deferred \<open>wg.Done()\<close>.
\<close>

fun fire :: "(string \<Rightarrow> error + bool) \<Rightarrow> event \<Rightarrow> pool \<Rightarrow> pool option" where
  "fire probe SendJob s =
     (case unsent s of
        api # rest \<Rightarrow>
          if length (jobs s) < capacity s
          then Some (s\<lparr>unsent := rest, jobs := jobs s @ [api]\<rparr>) else None
      | [] \<Rightarrow> None)"
| "fire probe CloseJobs s =
     (if unsent s = [] \<and> \<not> jobs_closed s then Some (s\<lparr>jobs_closed := True\<rparr>) else None)"
| "fire probe (Receive i now) s =
     (if i < length (workers s) \<and> workers s ! i = Receiving then
        (case jobs s of
           apiName # rest \<Rightarrow>
             Some (s\<lparr>jobs := rest,
                     workers := (workers s)[i := Sending (checkSingleAPI probe now apiName)]\<rparr>)
         | [] \<Rightarrow> None)
      else None)"
| "fire probe (Deliver i) s =
     (if i < length (workers s) then
        (case workers s ! i of
           Sending result \<Rightarrow>
             if length (results s) < capacity s
             then Some (s\<lparr>results := results s @ [result],
                          workers := (workers s)[i := Receiving]\<rparr>)
             else None
         | _ \<Rightarrow> None)
      else None)"
| "fire probe (Exit i) s =
     (if i < length (workers s) \<and> workers s ! i = Receiving \<and> jobs s = [] \<and> jobs_closed s
      then Some (s\<lparr>workers := (workers s)[i := Exited]\<rparr>) else None)"
| "fire probe CloseResults s =
     (if list_all (\<lambda>w. w = Exited) (workers s) \<and> \<not> results_closed s
      then Some (s\<lparr>results_closed := True\<rparr>) else None)"
| "fire probe Collect s =
     (if returned s then None
      else case results s of
             result # rest \<Rightarrow> Some (s\<lparr>results := rest, allResults := allResults s @ [result]\<rparr>)
           | [] \<Rightarrow> None)"
| "fire probe Return s =
     (if \<not> returned s \<and> results s = [] \<and> results_closed s
      then Some (s\<lparr>returned := True\<rparr>) else None)"

fun run :: "(string \<Rightarrow> error + bool) \<Rightarrow> event list \<Rightarrow> pool \<Rightarrow> pool option" where
  "run probe [] s = Some s"
| "run probe (e # es) s = (case fire probe e s of None \<Rightarrow> None | Some s' \<Rightarrow> run probe es s')"

definition start :: "string list \<Rightarrow> nat \<Rightarrow> pool" where
  "start apis n =
     \<lparr>unsent = apis, jobs = [], jobs_closed = False, workers = replicate n Receiving,
      results = [], results_closed = False, allResults = [], returned = False,
      capacity = length apis\<rparr>"

text \<open>
  \<open>CheckAllAPIs\<close> under one schedule: \<open>listing\<close> is what \<open>getAvailableAPIs\<close> returned. The
  value is \<open>None\<close> when the schedule is not an execution that reaches the \<open>return\<close>, else
  the pair the Go function returns (\<open>Inl\<close> the error, \<open>Inr\<close> the results).
\<close>

definition CheckAllAPIs ::
  "error + string list \<Rightarrow> (string \<Rightarrow> error + bool) \<Rightarrow> int \<Rightarrow> event list \<Rightarrow>
     (error + APIResult list) option" where
  "CheckAllAPIs listing probe n schedule =
     (case listing of
        Inl err \<Rightarrow> Some (Inl (''failed to get available APIs: '' @ err))
      | Inr apis \<Rightarrow>
          (case run probe schedule (start apis (nat n)) of
             Some s \<Rightarrow> if returned s then Some (Inr (allResults s)) else None
           | None \<Rightarrow> None))"


section \<open>Notions used to state the properties\<close>

subsection \<open>Report classification\<close>

text \<open>
  The report loop skips a result whose \<open>Error\<close> is not empty and otherwise looks at \<open>Enabled\<close>:
  a result counts as enabled when it carries no error and its flag is set. On every result
  that \<open>checkSingleAPI\<close> returns this is the same as the flag alone, because an errored
  result keeps the zero value of the flag (lemma \<open>enabled_priced_checkSingleAPI\<close>).
\<close>

definition enabled_priced :: "APIResult \<Rightarrow> bool" where
  "enabled_priced r \<longleftrightarrow> Error r = [] \<and> Enabled r \<and> HasPricing (CostInfo r)"




definition breakdown_entry :: "APIResult \<Rightarrow> string \<times> real" where
  "breakdown_entry r = (DisplayName r, EstimatedCost (CostInfo r))"

text \<open>The cost of the last enabled, priced result with display name \<open>k\<close>, if there is one.\<close>

definition last_priced_cost :: "APIResult list \<Rightarrow> string \<Rightarrow> real option" where
  "last_priced_cost rs k =
     (case filter (\<lambda>r. enabled_priced r \<and> DisplayName r = k) rs of
        [] \<Rightarrow> None
      | x # xs \<Rightarrow> Some (EstimatedCost (CostInfo (last (x # xs)))))"

subsection \<open>The blocks of the recommendation list\<close>

definition unlimited_block :: "Report \<Rightarrow> string list" where
  "unlimited_block report =
     (let items = UnlimitedCostAPIs (CostAnalysis report)
      in if items = [] then [] else unlimited_heading (length items) # map unlimited_line items)"

definition high_block :: "Report \<Rightarrow> string list" where
  "high_block report =
     (let items = HighCostAPIs (CostAnalysis report)
      in if items = [] then [] else high_heading (length items) # map high_line items)"

definition total_block :: "Report \<Rightarrow> string list" where
  "total_block report =
     (if 500 < TotalCost (Summary report) then [total_line (TotalCost (Summary report))] else [])"

definition disabled_block :: "Report \<Rightarrow> string list" where
  "disabled_block report =
     (if 0 < length (DisabledAPIs report) then [disabled_line (length (DisabledAPIs report))]
      else [])"

subsection \<open>Cost fields at their zero or default values\<close>

text \<open>
  The cost is zero, and the currency and the details are either empty (the zero value that
  an errored result or a failed cost lookup leaves) or the values \<open>getCostInfo\<close> returns for
  an identifier it has no pricing for.
\<close>

definition zero_or_default_costs :: "CostInfo \<Rightarrow> bool" where
  "zero_or_default_costs c \<longleftrightarrow>
     EstimatedCost c = 0 \<and>
     (CostInfo.Currency c = [] \<or> CostInfo.Currency c = CostInfo.Currency default_CostInfo) \<and>
     (PricingDetails c = [] \<or> PricingDetails c = PricingDetails default_CostInfo)"

subsection \<open>Invariant and measure of the worker pool\<close>

fun held :: "worker_state \<Rightarrow> APIResult list" where
  "held (Sending result) = [result]"
| "held Receiving = []"
| "held Exited = []"

definition in_flight :: "worker_state list \<Rightarrow> APIResult list" where
  "in_flight ws = concat (map held ws)"

text \<open>
  Every catalogue entry is in exactly one place: not yet sent, in the \<open>jobs\<close> buffer, in the
  hands of a worker, in the \<open>results\<close> buffer, or collected. A worker has exited only after
  \<open>jobs\<close> was closed and drained, \<open>results\<close> is closed only after every worker has exited, and
  every result on its way is what \<open>checkSingleAPI\<close> returned for the identifier it names.
\<close>

definition pool_inv :: "(string \<Rightarrow> error + bool) \<Rightarrow> string list \<Rightarrow> nat \<Rightarrow> pool \<Rightarrow> bool" where
  "pool_inv probe apis n s \<longleftrightarrow>
     mset (unsent s) + mset (jobs s) + mset (map Name (in_flight (workers s))) +
       mset (map Name (results s)) + mset (map Name (allResults s)) = mset apis \<and>
     capacity s = length apis \<and>
     length (workers s) = n \<and>
     (jobs_closed s \<longrightarrow> unsent s = []) \<and>
     (Exited \<in> set (workers s) \<longrightarrow> jobs_closed s \<and> jobs s = []) \<and>
     (results_closed s \<longrightarrow> list_all (\<lambda>w. w = Exited) (workers s)) \<and>
     (returned s \<longrightarrow> results s = [] \<and> results_closed s) \<and>
     list_all (\<lambda>r. \<exists>now. r = checkSingleAPI probe now (Name r))
       (in_flight (workers s) @ results s @ allResults s)"

fun worker_weight :: "worker_state \<Rightarrow> nat" where
  "worker_weight Receiving = 1"
| "worker_weight (Sending result) = 4"
| "worker_weight Exited = 0"

text \<open>The number of events that can still happen is at most \<open>pool_measure\<close>.\<close>

definition pool_measure :: "pool \<Rightarrow> nat" where
  "pool_measure s =
     5 * length (unsent s) + 4 * length (jobs s) + sum_list (map worker_weight (workers s)) +
     2 * length (results s) + (if jobs_closed s then 0 else 1) +
     (if results_closed s then 0 else 1) + (if returned s then 0 else 1)"

subsection \<open>Concrete inputs\<close>




definition two_apis :: "string list" where
  "two_apis = [''compute.googleapis.com'', ''pubsub.googleapis.com'']"

text \<open>Two workers; the second finishes first, so the results arrive in reverse order.\<close>

definition overtaking_schedule :: "event list" where
  "overtaking_schedule = [SendJob, SendJob, Receive 0 1, Receive 1 2, Deliver 1, CloseJobs,
     Collect, Deliver 0, Exit 1, Exit 0, CloseResults, Collect, Return]"

definition single_schedule :: "event list" where
  "single_schedule = [SendJob, Receive 0 7, Deliver 0, CloseJobs, Exit 0, CloseResults,
     Collect, Return]"

text \<open>A checker with a token and a project whose every request is answered with status 500.\<close>

definition failing_checker :: GoogleAPIChecker where
  "failing_checker =
     NewGoogleAPIChecker ''key'' ''my-project'' 10 (\<lambda>url. Response 500 (Decoded None))"

text \<open>A checker without a token: it takes the simulated branch, as the first copy does.\<close>

definition simulated_checker :: GoogleAPIChecker where
  "simulated_checker = NewGoogleAPIChecker [] [] 10 (\<lambda>url. DoError ''no network'')"

section \<open>Sorting functions that meet the contract of sort.Slice\<close>













section \<open>The report loop\<close>



lemma report_loop_breakdown:
  "costBreakdown (foldl report_body v rs) =
     costBreakdown v ++ map_of (rev (map breakdown_entry (filter enabled_priced rs)))"
proof (induction rs arbitrary: v)
  case Nil
  then show ?case by simp
next
  case (Cons r rs)
  show ?case
  proof (cases "enabled_priced r")
    case True
    then have step: "costBreakdown (report_body v r) = costBreakdown v ++ map_of [breakdown_entry r]"
      by (simp add: report_body_def Let_def enabled_priced_def breakdown_entry_def)
    have "costBreakdown (foldl report_body (report_body v r) rs) =
        costBreakdown (report_body v r) ++
        map_of (rev (map breakdown_entry (filter enabled_priced rs)))"
      by (rule Cons.IH)
    also have "\<dots> = costBreakdown v ++
        (map_of [breakdown_entry r] ++ map_of (rev (map breakdown_entry (filter enabled_priced rs))))"
      by (simp only: step map_add_assoc)
    also have "map_of [breakdown_entry r] ++
        map_of (rev (map breakdown_entry (filter enabled_priced rs))) =
        map_of (rev (map breakdown_entry (filter enabled_priced (r # rs))))"
      using True by (simp only: filter.simps if_True list.map rev.simps map_of_append)
    finally show ?thesis by simp
  next
    case False
    then have "costBreakdown (report_body v r) = costBreakdown v"
      by (auto simp: report_body_def Let_def enabled_priced_def)
    then show ?thesis using False Cons.IH [of "report_body v r"] by simp
  qed
qed



lemma GenerateReport_breakdown:
  "CostBreakdown (CostAnalysis (GenerateReport srt now rs)) =
     map_of (rev (map breakdown_entry (filter enabled_priced rs)))"
  by (simp add: GenerateReport_def Let_def report_loop_def report_loop_breakdown
      report_vars_init_def)

lemma map_of_rev_last:
  "map_of (rev (map breakdown_entry xs)) k =
     (case filter (\<lambda>r. DisplayName r = k) xs of
        [] \<Rightarrow> None
      | x # xs \<Rightarrow> Some (EstimatedCost (CostInfo (last (x # xs)))))"
proof (induction xs rule: rev_induct)
  case Nil
  then show ?case by simp
next
  case (snoc x xs)
  show ?case
  proof (cases "DisplayName x = k")
    case True
    then show ?thesis
      by (cases "filter (\<lambda>r. DisplayName r = k) xs") (simp_all add: breakdown_entry_def)
  next
    case False
    then show ?thesis using snoc by (simp add: breakdown_entry_def)
  qed
qed

lemma filter_enabled_priced_key:
  "filter (\<lambda>r. DisplayName r = k) (filter enabled_priced rs) =
   filter (\<lambda>r. enabled_priced r \<and> DisplayName r = k) rs"
  by (induction rs) auto

lemma foldl_append_line: "foldl (\<lambda>r api. r @ [f api]) acc xs = acc @ map f xs"
  by (induction xs arbitrary: acc) simp_all

section \<open>Single probes\<close>

lemma Name_checkSingleAPI: "Name (checkSingleAPI probe now apiName) = apiName"
  by (simp add: checkSingleAPI_def Let_def zero_APIResult_def split: sum.split)

lemma checkSingleAPI_Inl:
  "probe a = Inl err \<Longrightarrow>
   checkSingleAPI probe now a =
     zero_APIResult\<lparr>Name := a, CheckedAt := now, Error := err, Status := ''ERROR''\<rparr>"
  by (simp add: checkSingleAPI_def)

lemma checkSingleAPI_Inr:
  "probe a = Inr enabled \<Longrightarrow>
   Error (checkSingleAPI probe now a) = [] \<and>
   Enabled (checkSingleAPI probe now a) = enabled \<and>
   Status (checkSingleAPI probe now a) = (if enabled then ''ENABLED'' else ''DISABLED'') \<and>
   DisplayName (checkSingleAPI probe now a) = getAPIDisplayName a"
  by (simp add: checkSingleAPI_def Let_def zero_APIResult_def split: sum.split)

lemma CostInfo_checkSingleAPI:
  "CostInfo (checkSingleAPI probe now a) =
     (case probe a of Inl err \<Rightarrow> zero_CostInfo
      | Inr enabled \<Rightarrow> (case getCostInfo a of Inl err \<Rightarrow> zero_CostInfo\<lparr>HasPricing := False\<rparr>
                         | Inr c \<Rightarrow> c))"
  by (simp add: checkSingleAPI_def Let_def zero_APIResult_def split: sum.split)

lemma probe_error_nonempty: "isAPIEnabled' c a = Inl err \<Longrightarrow> err \<noteq> []"
  by (auto simp: isAPIEnabled'_def checkAPIEnabledReal_def isAPIEnabled_def Let_def
      split: if_splits http_result.splits json_body.splits option.splits)

lemma costData_priced:
  "list_all (\<lambda>(k, c). HasPricing c \<and> (UnlimitedCost c \<or> EstimatedCost c \<noteq> 0)) costData"
  by (simp add: costData_def)

lemma getCostInfo_cases:
  obtains "getCostInfo a = Inr default_CostInfo"
  | c where "getCostInfo a = Inr c" "HasPricing c" "UnlimitedCost c \<or> EstimatedCost c \<noteq> 0"
proof (cases "map_of costData a")
  case None
  then have "getCostInfo a = Inr default_CostInfo" by (simp add: getCostInfo_def)
  then show ?thesis by (rule that(1))
next
  case (Some c)
  then have "(a, c) \<in> set costData" by (rule map_of_SomeD)
  then have "HasPricing c \<and> (UnlimitedCost c \<or> EstimatedCost c \<noteq> 0)"
    using costData_priced by (auto simp: list_all_iff)
  moreover have "getCostInfo a = Inr c" using Some by (simp add: getCostInfo_def)
  ultimately show ?thesis using that(2) by blast
qed

lemma displayNames_nonempty: "list_all (\<lambda>(k, d). d \<noteq> []) displayNames"
  by (simp add: displayNames_def)

lemma fmt_d_500: "fmt_d 500 = ''500''"
  by (simp add: fmt_d.simps digit_char_def)

lemma failing_probe:
  "isAPIEnabled' failing_checker a = Inl ''API request failed with status: 500''"
  by (simp add: isAPIEnabled'_def failing_checker_def NewGoogleAPIChecker_def
      checkAPIEnabledReal_def fmt_d_500)

lemma catalogue_length: "length catalogue = 93"
  by (simp add: catalogue_def)

section \<open>The worker pool\<close>

lemma in_flight_update:
  "i < length ws \<Longrightarrow>
   mset (in_flight (ws[i := w])) + mset (held (ws ! i)) = mset (in_flight ws) + mset (held w)"
proof (induction ws arbitrary: i)
  case Nil
  then show ?case by simp
next
  case (Cons a ws)
  show ?case
  proof (cases i)
    case 0
    then show ?thesis by (simp add: in_flight_def)
  next
    case (Suc j)
    then have "j < length ws" using Cons.prems by simp
    from Cons.IH [OF this] show ?thesis using Suc by (simp add: in_flight_def)
  qed
qed

lemma set_in_flight_update:
  "i < length ws \<Longrightarrow> set (in_flight (ws[i := w])) \<subseteq> set (in_flight ws) \<union> set (held w)"
  using in_flight_update [of i ws w]
  by (metis mset_append set_append set_mset_mset subsetI union_iff Un_iff)

lemma in_flight_Exited: "list_all (\<lambda>w. w = Exited) ws \<Longrightarrow> in_flight ws = []"
  by (induction ws) (auto simp: in_flight_def)

lemma weight_update:
  "i < length ws \<Longrightarrow>
   sum_list (map worker_weight (ws[i := w])) + worker_weight (ws ! i) =
   sum_list (map worker_weight ws) + worker_weight w"
proof (induction ws arbitrary: i)
  case Nil
  then show ?case by simp
next
  case (Cons a ws)
  show ?case
  proof (cases i)
    case 0
    then show ?thesis by simp
  next
    case (Suc j)
    then have "j < length ws" using Cons.prems by simp
    from Cons.IH [OF this] show ?thesis using Suc by simp
  qed
qed

lemma pool_inv_start: "pool_inv probe apis n (start apis n)"
  by (simp add: pool_inv_def start_def in_flight_def list_all_iff)

lemma fire_decreases:
  assumes "fire probe e s = Some s'"
  shows "pool_measure s' < pool_measure s"
proof (cases e)
  case SendJob
  then show ?thesis using assms
    by (auto simp: pool_measure_def split: list.splits if_splits)
next
  case CloseJobs
  then show ?thesis using assms
    by (auto simp: pool_measure_def split: list.splits if_splits)
next
  case (Receive i now)
  with assms obtain a rest where i: "i < length (workers s)" and w: "workers s ! i = Receiving"
    and j: "jobs s = a # rest"
    and s': "s' = s\<lparr>jobs := rest,
                    workers := (workers s)[i := Sending (checkSingleAPI probe now a)]\<rparr>"
    by (auto split: list.splits if_splits)
  from weight_update [OF i, of "Sending (checkSingleAPI probe now a)"] w
  show ?thesis by (simp add: pool_measure_def s' j)
next
  case (Deliver i)
  with assms obtain r where i: "i < length (workers s)" and w: "workers s ! i = Sending r"
    and s': "s' = s\<lparr>results := results s @ [r], workers := (workers s)[i := Receiving]\<rparr>"
    by (auto split: worker_state.splits if_splits)
  from weight_update [OF i, of Receiving] w
  show ?thesis by (simp add: pool_measure_def s')
next
  case (Exit i)
  with assms have i: "i < length (workers s)" and w: "workers s ! i = Receiving"
    and s': "s' = s\<lparr>workers := (workers s)[i := Exited]\<rparr>"
    by (auto split: if_splits)
  from weight_update [OF i, of Exited] w
  show ?thesis by (simp add: pool_measure_def s')
next
  case CloseResults
  then show ?thesis using assms
    by (auto simp: pool_measure_def split: list.splits if_splits)
next
  case Collect
  then show ?thesis using assms
    by (auto simp: pool_measure_def split: list.splits if_splits)
next
  case Return
  then show ?thesis using assms
    by (auto simp: pool_measure_def split: list.splits if_splits)
qed

lemma names_in_flight_update:
  assumes "i < length ws"
  shows "mset (map Name (in_flight (ws[i := w]))) + mset (map Name (held (ws ! i))) =
         mset (map Name (in_flight ws)) + mset (map Name (held w))"
proof -
  have "image_mset Name (mset (in_flight (ws[i := w])) + mset (held (ws ! i))) =
        image_mset Name (mset (in_flight ws) + mset (held w))"
    using in_flight_update [OF assms, of w] by simp
  then show ?thesis by simp
qed

lemma Exited_update:
  "Exited \<in> set (ws[i := w]) \<Longrightarrow> w \<noteq> Exited \<Longrightarrow> Exited \<in> set ws"
  using set_update_subset_insert [of ws i w] by auto

lemma all_Exited_nth: "list_all (\<lambda>w. w = Exited) ws \<Longrightarrow> i < length ws \<Longrightarrow> ws ! i = Exited"
  by (simp add: list_all_length)

lemma origin_update:
  assumes "i < length ws" and "list_all P (in_flight ws)" and "list_all P (held w)"
  shows "list_all P (in_flight (ws[i := w]))"
  using set_in_flight_update [OF assms(1), of w] assms(2,3)
  by (auto simp: list_all_iff)

lemma pool_inv_Receive:
  assumes inv: "pool_inv probe apis n s" and f: "fire probe (Receive i now) s = Some s'"
  shows "pool_inv probe apis n s'"
proof -
  from f obtain a rest where i: "i < length (workers s)" and w: "workers s ! i = Receiving"
    and j: "jobs s = a # rest"
    and s': "s' = s\<lparr>jobs := rest,
                    workers := (workers s)[i := Sending (checkSingleAPI probe now a)]\<rparr>"
    by (auto split: list.splits if_splits)
  let ?r = "checkSingleAPI probe now a"
  have n: "mset (map Name (in_flight ((workers s)[i := Sending ?r]))) =
           mset (map Name (in_flight (workers s))) + {#a#}"
    using names_in_flight_update [OF i, of "Sending ?r"] w by (simp add: Name_checkSingleAPI)
  have ne: "Exited \<notin> set (workers s)" using inv j by (auto simp: pool_inv_def)
  have nc: "\<not> results_closed s" using inv i w by (auto simp: pool_inv_def dest: all_Exited_nth)
  have o: "list_all (\<lambda>r. \<exists>now. r = checkSingleAPI probe now (Name r))
             (in_flight ((workers s)[i := Sending ?r]))"
    using inv i by (intro origin_update) (auto simp: pool_inv_def Name_checkSingleAPI)
  show ?thesis using inv n ne nc o
    by (auto simp: pool_inv_def s' j dest: Exited_update)
qed

lemma pool_inv_Deliver:
  assumes inv: "pool_inv probe apis n s" and f: "fire probe (Deliver i) s = Some s'"
  shows "pool_inv probe apis n s'"
proof -
  from f obtain r where i: "i < length (workers s)" and w: "workers s ! i = Sending r"
    and s': "s' = s\<lparr>results := results s @ [r], workers := (workers s)[i := Receiving]\<rparr>"
    by (auto split: worker_state.splits if_splits)
  have n: "mset (map Name (in_flight ((workers s)[i := Receiving]))) + {#Name r#} =
           mset (map Name (in_flight (workers s)))"
    using names_in_flight_update [OF i, of Receiving] w by simp
  have nc: "\<not> results_closed s" using inv i w by (auto simp: pool_inv_def dest: all_Exited_nth)
  have "Sending r \<in> set (workers s)" using i w nth_mem by fastforce
  then have "r \<in> set (in_flight (workers s))"
    by (auto simp: in_flight_def intro!: bexI [of _ "Sending r"])
  then have r: "\<exists>now. r = checkSingleAPI probe now (Name r)"
    using inv by (auto simp: pool_inv_def list_all_iff)
  have o: "list_all (\<lambda>r. \<exists>now. r = checkSingleAPI probe now (Name r))
             (in_flight ((workers s)[i := Receiving]))"
    using inv i by (intro origin_update) (auto simp: pool_inv_def)
  have c: "mset (unsent s) + mset (jobs s) + mset (map Name (in_flight (workers s))) +
       mset (map Name (results s)) + mset (map Name (allResults s)) = mset apis"
    using inv by (simp add: pool_inv_def)
  have c': "mset (unsent s) + mset (jobs s) +
       mset (map Name (in_flight ((workers s)[i := Receiving]))) +
       mset (map Name (results s @ [r])) + mset (map Name (allResults s)) = mset apis"
    unfolding c [symmetric] n [symmetric] by simp
  show ?thesis using inv nc o r c'
    by (auto simp: pool_inv_def s' dest: Exited_update)
qed

lemma pool_inv_Exit:
  assumes inv: "pool_inv probe apis n s" and f: "fire probe (Exit i) s = Some s'"
  shows "pool_inv probe apis n s'"
proof -
  from f have i: "i < length (workers s)" and w: "workers s ! i = Receiving"
    and j: "jobs s = []" "jobs_closed s"
    and s': "s' = s\<lparr>workers := (workers s)[i := Exited]\<rparr>"
    by (auto split: if_splits)
  have n: "mset (map Name (in_flight ((workers s)[i := Exited]))) =
           mset (map Name (in_flight (workers s)))"
    using names_in_flight_update [OF i, of Exited] w by simp
  have nc: "\<not> results_closed s" using inv i w by (auto simp: pool_inv_def dest: all_Exited_nth)
  have o: "list_all (\<lambda>r. \<exists>now. r = checkSingleAPI probe now (Name r))
             (in_flight ((workers s)[i := Exited]))"
    using inv i by (intro origin_update) (auto simp: pool_inv_def)
  show ?thesis using inv n nc o j
    by (auto simp: pool_inv_def s')
qed

lemma pool_inv_fire:
  assumes inv: "pool_inv probe apis n s" and f: "fire probe e s = Some s'"
  shows "pool_inv probe apis n s'"
proof (cases e)
  case SendJob
  then show ?thesis using inv f
    by (auto simp: pool_inv_def split: list.splits if_splits)
next
  case CloseJobs
  then show ?thesis using inv f
    by (auto simp: pool_inv_def split: list.splits if_splits)
next
  case (Receive i now)
  then show ?thesis using inv f pool_inv_Receive by blast
next
  case (Deliver i)
  then show ?thesis using inv f pool_inv_Deliver by blast
next
  case (Exit i)
  then show ?thesis using inv f pool_inv_Exit by blast
next
  case CloseResults
  then show ?thesis using inv f
    by (auto simp: pool_inv_def split: list.splits if_splits)
next
  case Collect
  then show ?thesis using inv f
    by (auto simp: pool_inv_def split: list.splits if_splits)
next
  case Return
  then show ?thesis using inv f
    by (auto simp: pool_inv_def split: list.splits if_splits)
qed

lemma pool_inv_run:
  "pool_inv probe apis n s \<Longrightarrow> run probe es s = Some s' \<Longrightarrow> pool_inv probe apis n s'"
  by (induction es arbitrary: s) (auto split: option.splits dest: pool_inv_fire)

lemma run_bounded:
  "run probe es s = Some s' \<Longrightarrow> length es + pool_measure s' \<le> pool_measure s"
proof (induction es arbitrary: s)
  case Nil
  then show ?case by simp
next
  case (Cons e es)
  then obtain s1 where f: "fire probe e s = Some s1" and r: "run probe es s1 = Some s'"
    by (auto split: option.splits)
  from Cons.IH [OF r] fire_decreases [OF f] show ?case by simp
qed

lemma pool_inv_nonempty:
  assumes "pool_inv probe apis n s"
    and "unsent s \<noteq> [] \<or> in_flight (workers s) \<noteq> []"
  shows "0 < capacity s"
proof -
  have "size (mset (unsent s) + mset (jobs s) + mset (map Name (in_flight (workers s))) +
       mset (map Name (results s)) + mset (map Name (allResults s))) = size (mset apis)"
    using assms(1) by (simp only: pool_inv_def)
  then have "length (unsent s) + length (in_flight (workers s)) \<le> length apis" by simp
  moreover have "capacity s = length apis" using assms(1) by (simp add: pool_inv_def)
  ultimately show ?thesis using assms(2) by (cases "unsent s"; cases "in_flight (workers s)") auto
qed

lemma pool_progress:
  assumes inv: "pool_inv probe apis n s" and nr: "\<not> returned s"
  shows "\<exists>e s'. fire probe e s = Some s'"
proof (cases "results s")
  case (Cons r rest)
  then have "fire probe Collect s \<noteq> None" using nr by simp
  then show ?thesis by blast
next
  case Nil
  show ?thesis
  proof (cases "results_closed s")
    case True
    then have "fire probe Return s \<noteq> None" using nr Nil by simp
    then show ?thesis by blast
  next
    case False
    show ?thesis
    proof (cases "list_all (\<lambda>w. w = Exited) (workers s)")
      case True
      then have "fire probe CloseResults s \<noteq> None" using False by simp
      then show ?thesis by blast
    next
      case nall: False
      then obtain i where i: "i < length (workers s)" and w: "workers s ! i \<noteq> Exited"
        by (auto simp: list_all_length)
      show ?thesis
      proof (cases "workers s ! i")
        case (Sending r)
        then have "Sending r \<in> set (workers s)" using i nth_mem by fastforce
        then have "in_flight (workers s) \<noteq> []"
          by (auto simp: in_flight_def intro!: bexI [of _ "Sending r"])
        then have "0 < capacity s" using pool_inv_nonempty [OF inv] by simp
        then have "fire probe (Deliver i) s \<noteq> None" using i Sending Nil by simp
        then show ?thesis by blast
      next
        case Exited
        then show ?thesis using w by simp
      next
        case Receiving
        show ?thesis
        proof (cases "jobs s")
          case (Cons a rest)
          then have "fire probe (Receive i 0) s \<noteq> None" using i Receiving by simp
          then show ?thesis by blast
        next
          case jn: Nil
          show ?thesis
          proof (cases "jobs_closed s")
            case True
            then have "fire probe (Exit i) s \<noteq> None" using i Receiving jn by simp
            then show ?thesis by blast
          next
            case nc: False
            show ?thesis
            proof (cases "unsent s")
              case Nil
              then have "fire probe CloseJobs s \<noteq> None" using nc by simp
              then show ?thesis by blast
            next
              case (Cons a rest)
              then have "0 < capacity s" using pool_inv_nonempty [OF inv] by simp
              then have "fire probe SendJob s \<noteq> None" using Cons jn by simp
              then show ?thesis by blast
            qed
          qed
        qed
      qed
    qed
  qed
qed

lemma pool_completes:
  "pool_inv probe apis n s \<Longrightarrow> \<exists>es s'. run probe es s = Some s' \<and> returned s'"
proof (induction "pool_measure s" arbitrary: s rule: less_induct)
  case less
  show ?case
  proof (cases "returned s")
    case True
    then have "run probe [] s = Some s \<and> returned s" by simp
    then show ?thesis by blast
  next
    case False
    with less.prems obtain e s1 where f: "fire probe e s = Some s1"
      using pool_progress by blast
    have "pool_measure s1 < pool_measure s" using f by (rule fire_decreases)
    moreover have "pool_inv probe apis n s1" using less.prems f by (rule pool_inv_fire)
    ultimately obtain es s' where "run probe es s1 = Some s'" and "returned s'"
      using less.hyps by blast
    then have "run probe (e # es) s = Some s' \<and> returned s'" using f by simp
    then show ?thesis by blast
  qed
qed

lemma pool_inv_returned:
  assumes inv: "pool_inv probe apis n s" and r: "returned s" and n: "0 < n"
  shows "mset (map Name (allResults s)) = mset apis"
    and "list_all (\<lambda>r. \<exists>now. r = checkSingleAPI probe now (Name r)) (allResults s)"
proof -
  have all: "list_all (\<lambda>w. w = Exited) (workers s)" and res: "results s = []"
    using inv r by (auto simp: pool_inv_def)
  have "workers s \<noteq> []" using inv n by (auto simp: pool_inv_def)
  then have "Exited \<in> set (workers s)" using all by (cases "workers s") auto
  then have "jobs s = []" "unsent s = []" using inv by (auto simp: pool_inv_def)
  moreover have "in_flight (workers s) = []" using all by (rule in_flight_Exited)
  ultimately show "mset (map Name (allResults s)) = mset apis"
    using inv res by (simp add: pool_inv_def)
  show "list_all (\<lambda>r. \<exists>now. r = checkSingleAPI probe now (Name r)) (allResults s)"
    using inv by (simp add: pool_inv_def)
qed

lemma pool_measure_start: "pool_measure (start apis n) = 5 * length apis + n + 3"
  by (simp add: pool_measure_def start_def sum_list_replicate)

lemma overtaking_run:
  "CheckAllAPIs (Inr two_apis) isAPIEnabled 2 overtaking_schedule =
     Some (Inr [checkSingleAPI isAPIEnabled 2 ''pubsub.googleapis.com'',
                checkSingleAPI isAPIEnabled 1 ''compute.googleapis.com''])"
  by (simp add: CheckAllAPIs_def overtaking_schedule_def two_apis_def start_def
      numeral_2_eq_2)

section \<open>Facts about the tables and the concrete inputs\<close>

lemma getAvailableAPIsStatic_distinct:
  "case getAvailableAPIsStatic of Inr apis \<Rightarrow> distinct apis | Inl err \<Rightarrow> False"
  by (simp add: getAvailableAPIsStatic_def)

lemma enabled_priced_checkSingleAPI:
  "enabled_priced (checkSingleAPI probe now a) \<longleftrightarrow>
     Enabled (checkSingleAPI probe now a) \<and> HasPricing (CostInfo (checkSingleAPI probe now a))"
  by (cases "probe a")
     (simp_all add: enabled_priced_def checkSingleAPI_def Let_def zero_APIResult_def
        split: sum.split)

lemma status_error_iff:
  "Status (checkSingleAPI (isAPIEnabled' c) now a) = ''ERROR'' \<longleftrightarrow>
     Error (checkSingleAPI (isAPIEnabled' c) now a) \<noteq> []"
proof (cases "isAPIEnabled' c a")
  case (Inl err)
  then have "err \<noteq> []" by (rule probe_error_nonempty)
  then show ?thesis
    by (simp add: checkSingleAPI_Inl [where probe = "isAPIEnabled' c" and a = a, OF Inl]
        zero_APIResult_def)
next
  case (Inr enabled)
  from checkSingleAPI_Inr [where probe = "isAPIEnabled' c" and a = a, OF this, of now]
  show ?thesis by simp
qed

lemmas probe_eval = checkSingleAPI_def isAPIEnabled_def enabledAPIs_map_def getAPIDisplayName_def
  displayNames_def getCostInfo_def costData_def default_CostInfo_def zero_APIResult_def
  zero_CostInfo_def Let_def



lemma failing_run:
  "CheckAllAPIs (Inr [''compute.googleapis.com'']) (isAPIEnabled' failing_checker) 1
     single_schedule =
   Some (Inr [zero_APIResult\<lparr>Name := ''compute.googleapis.com'', CheckedAt := 7,
                Error := ''API request failed with status: 500'', Status := ''ERROR''\<rparr>])"
  by (simp add: CheckAllAPIs_def single_schedule_def start_def
      checkSingleAPI_Inl [where probe = "isAPIEnabled' failing_checker", OF failing_probe])

lemma total_line_600:
  "total_line 600 = [CHR 0xF0, CHR 0x9F, CHR 0x92, CHR 0xB8] @
     '' Total estimated monthly cost is high: $600.00. Consider reviewing usage patterns.''"
  by (simp add: total_line_def fmt_f2_def round_half_even_def fmt_d.simps digit_char_def Let_def)

text \<open>
  The static catalogue of the second copy is the catalogue of the first with every repeated
  entry dropped (the first occurrence stays).
\<close>

lemma getAvailableAPIsStatic_drops_repeats:
  "getAvailableAPIsStatic = Inr (rev (remdups (rev catalogue)))"
  by (simp add: catalogue_def getAvailableAPIsStatic_def)

section \<open>The claims\<close>

subsection \<open>C1: one result per catalogue entry, whatever the schedule\<close>

text \<open>
  C1. Let the catalogue listing succeed with \<open>apis\<close> and let there be at least one worker.
  Then some schedule brings \<open>CheckAllAPIs\<close> to its \<open>return\<close>; whichever schedule does, the
  returned results are as many as the catalogue entries, their identifiers are the
  catalogue entries with the same multiplicities (nothing lost, nothing twice), and each
  is what \<open>checkSingleAPI\<close> returns for its identifier. No schedule deadlocks (in every
  reachable state short of the \<open>return\<close> some goroutine can take a step) and none runs for
  more than \<open>5 * M + N + 3\<close> events, so every execution reaches the \<open>return\<close>.
\<close>

theorem CheckAllAPIs_one_result_per_entry:
  assumes "1 \<le> n"
  shows "(\<exists>schedule rs. CheckAllAPIs (Inr apis) probe n schedule = Some (Inr rs)) \<and>
         (\<forall>schedule rs. CheckAllAPIs (Inr apis) probe n schedule = Some (Inr rs) \<longrightarrow>
            length rs = length apis \<and> mset (map Name rs) = mset apis \<and>
            list_all (\<lambda>r. \<exists>now. r = checkSingleAPI probe now (Name r)) rs) \<and>
         (\<forall>schedule s. run probe schedule (start apis (nat n)) = Some s \<longrightarrow>
            length schedule \<le> 5 * length apis + nat n + 3 \<and>
            (\<not> returned s \<longrightarrow> (\<exists>e s'. fire probe e s = Some s')))"
proof (intro conjI allI impI)
  obtain es s where "run probe es (start apis (nat n)) = Some s" and "returned s"
    using pool_completes [OF pool_inv_start] by blast
  then have "CheckAllAPIs (Inr apis) probe n es = Some (Inr (allResults s))"
    by (simp add: CheckAllAPIs_def)
  then show "\<exists>schedule rs. CheckAllAPIs (Inr apis) probe n schedule = Some (Inr rs)" by blast
next
  fix schedule rs
  assume c: "CheckAllAPIs (Inr apis) probe n schedule = Some (Inr rs)"
  then obtain s where run: "run probe schedule (start apis (nat n)) = Some s"
    and r: "returned s" and rs: "rs = allResults s"
    by (auto simp: CheckAllAPIs_def split: option.splits if_splits)
  have inv: "pool_inv probe apis (nat n) s" using pool_inv_start run by (rule pool_inv_run)
  have n: "0 < nat n" using assms by simp
  show m: "mset (map Name rs) = mset apis" unfolding rs using inv r n by (rule pool_inv_returned)
  have "size (mset (map Name rs)) = size (mset apis)" by (simp only: m)
  then show "length rs = length apis" by simp
  show "list_all (\<lambda>r. \<exists>now. r = checkSingleAPI probe now (Name r)) rs"
    unfolding rs using inv r n by (rule pool_inv_returned)
next
  fix schedule s
  assume run: "run probe schedule (start apis (nat n)) = Some s"
  show "length schedule \<le> 5 * length apis + nat n + 3"
    using run_bounded [OF run] by (simp add: pool_measure_start)
  assume "\<not> returned s"
  moreover have "pool_inv probe apis (nat n) s" using pool_inv_start run by (rule pool_inv_run)
  ultimately show "\<exists>e s'. fire probe e s = Some s'" using pool_progress by blast
qed

text \<open>
  Two entries, two workers, the second worker delivering first: the results come back in
  reverse order and still name each entry once.
\<close>

theorem CheckAllAPIs_one_result_per_entry_witness:
  "(1::int) \<le> 2 \<and>
   CheckAllAPIs (Inr two_apis) isAPIEnabled 2 overtaking_schedule =
     Some (Inr [checkSingleAPI isAPIEnabled 2 ''pubsub.googleapis.com'',
                checkSingleAPI isAPIEnabled 1 ''compute.googleapis.com'']) \<and>
   mset (map Name [checkSingleAPI isAPIEnabled 2 ''pubsub.googleapis.com'',
                   checkSingleAPI isAPIEnabled 1 ''compute.googleapis.com'']) = mset two_apis"
proof -
  have n: "(1::int) \<le> 2" by simp
  have "\<forall>schedule rs. CheckAllAPIs (Inr two_apis) isAPIEnabled 2 schedule = Some (Inr rs) \<longrightarrow>
          mset (map Name rs) = mset two_apis"
    using CheckAllAPIs_one_result_per_entry
      [OF n, where apis = two_apis and probe = isAPIEnabled] by blast
  then show ?thesis using n overtaking_run by blast
qed

subsection \<open>C2: the high-cost list\<close>




subsection \<open>C3: the unlimited-risk list\<close>




subsection \<open>C4: the cost breakdown\<close>

text \<open>
  C4. The cost breakdown of the report maps a display name to the cost of the last
  enabled, priced result of the input that carries it, and has no entry for any other
  key: its keys are exactly the display names of the enabled, priced results.
\<close>

theorem costBreakdown_last_wins:
  "CostBreakdown (CostAnalysis (GenerateReport srt now rs)) = last_priced_cost rs \<and>
   dom (CostBreakdown (CostAnalysis (GenerateReport srt now rs))) =
     DisplayName ` {r \<in> set rs. enabled_priced r}"
proof
  show "CostBreakdown (CostAnalysis (GenerateReport srt now rs)) = last_priced_cost rs"
    by (rule ext)
       (simp add: GenerateReport_breakdown map_of_rev_last last_priced_cost_def
          filter_enabled_priced_key)
  show "dom (CostBreakdown (CostAnalysis (GenerateReport srt now rs))) =
     DisplayName ` {r \<in> set rs. enabled_priced r}"
    by (force simp: GenerateReport_breakdown dom_map_of_conv_image_fst breakdown_entry_def)
qed

subsection \<open>C5: the order of the recommendations\<close>

text \<open>
  C5. The recommendations are, in this order: the unlimited-risk block (a heading with the
  count and one line per item) when the unlimited-risk list is not empty, the high-cost
  block (a heading with the count and one line per item) when the high-cost list is not
  empty, one line on the total when the total cost of the summary is strictly more than
  500, one line with the count when there are disabled items, and the three fixed lines
  of general advice; a block whose condition fails contributes no line.
\<close>

theorem generateRecommendations_order:
  "generateRecommendations report =
     unlimited_block report @ high_block report @ total_block report @ disabled_block report @
     [advice_billing, advice_monitor, advice_quotas] \<and>
   length (generateRecommendations report) =
     (if UnlimitedCostAPIs (CostAnalysis report) = [] then 0
      else 1 + length (UnlimitedCostAPIs (CostAnalysis report))) +
     (if HighCostAPIs (CostAnalysis report) = [] then 0
      else 1 + length (HighCostAPIs (CostAnalysis report))) +
     (if 500 < TotalCost (Summary report) then 1 else 0) +
     (if DisabledAPIs report = [] then 0 else 1) + 3"
  by (simp add: generateRecommendations_def Let_def foldl_append_line unlimited_block_def
      high_block_def total_block_def disabled_block_def)

subsection \<open>C6: a failed probe becomes an errored result\<close>

text \<open>
  C6. For either copy of the checker (\<open>isAPIEnabled'\<close> with or without a token):
  when the probe of an identifier fails, \<open>checkSingleAPI\<close> returns the result that carries
  the identifier, the clock reading, status \<open>ERROR\<close> and the non-empty failure message,
  and otherwise a result without error whose status is not \<open>ERROR\<close>; so the status is
  \<open>ERROR\<close> exactly when the error message is not empty. \<open>CheckAllAPIs\<close> returns an error
  exactly when the catalogue listing failed, and then under every schedule, the empty one
  included: no job has been dispatched. When the listing succeeded and there is at least
  one worker, the run reaches its \<open>return\<close> with one result per catalogue entry, each
  coherent in the sense above, whichever probes failed.
\<close>

theorem probe_failures_isolated:
  "(case isAPIEnabled' c apiName of
      Inl err \<Rightarrow>
        err \<noteq> [] \<and>
        checkSingleAPI (isAPIEnabled' c) now apiName =
          zero_APIResult\<lparr>Name := apiName, CheckedAt := now, Error := err, Status := ''ERROR''\<rparr>
    | Inr enabled \<Rightarrow>
        Error (checkSingleAPI (isAPIEnabled' c) now apiName) = [] \<and>
        Status (checkSingleAPI (isAPIEnabled' c) now apiName) \<noteq> ''ERROR'') \<and>
   (Status (checkSingleAPI (isAPIEnabled' c) now apiName) = ''ERROR'' \<longleftrightarrow>
      Error (checkSingleAPI (isAPIEnabled' c) now apiName) \<noteq> []) \<and>
   (CheckAllAPIs listing (isAPIEnabled' c) n schedule = Some (Inl failure) \<longleftrightarrow>
      (\<exists>err. listing = Inl err \<and> failure = ''failed to get available APIs: '' @ err)) \<and>
   (1 \<le> n \<longrightarrow>
      (\<exists>schedule rs. CheckAllAPIs (Inr apis) (isAPIEnabled' c) n schedule = Some (Inr rs)) \<and>
      (\<forall>schedule rs. CheckAllAPIs (Inr apis) (isAPIEnabled' c) n schedule = Some (Inr rs) \<longrightarrow>
         length rs = length apis \<and>
         list_all (\<lambda>r. Status r = ''ERROR'' \<longleftrightarrow> Error r \<noteq> []) rs))"
proof (intro conjI impI allI)
  show "case isAPIEnabled' c apiName of
      Inl err \<Rightarrow>
        err \<noteq> [] \<and>
        checkSingleAPI (isAPIEnabled' c) now apiName =
          zero_APIResult\<lparr>Name := apiName, CheckedAt := now, Error := err, Status := ''ERROR''\<rparr>
    | Inr enabled \<Rightarrow>
        Error (checkSingleAPI (isAPIEnabled' c) now apiName) = [] \<and>
        Status (checkSingleAPI (isAPIEnabled' c) now apiName) \<noteq> ''ERROR''"
  proof (cases "isAPIEnabled' c apiName")
    case (Inl err)
    then show ?thesis
      using probe_error_nonempty [OF Inl]
        checkSingleAPI_Inl [where probe = "isAPIEnabled' c" and a = apiName, OF Inl]
      by simp
  next
    case (Inr enabled)
    then show ?thesis
      using checkSingleAPI_Inr [where probe = "isAPIEnabled' c" and a = apiName, OF Inr, of now]
      by simp
  qed
next
  show "Status (checkSingleAPI (isAPIEnabled' c) now apiName) = ''ERROR'' \<longleftrightarrow>
      Error (checkSingleAPI (isAPIEnabled' c) now apiName) \<noteq> []"
    by (rule status_error_iff)
next
  show "CheckAllAPIs listing (isAPIEnabled' c) n schedule = Some (Inl failure) \<longleftrightarrow>
      (\<exists>err. listing = Inl err \<and> failure = ''failed to get available APIs: '' @ err)"
    by (cases listing) (auto simp: CheckAllAPIs_def split: option.splits)
next
  assume "1 \<le> n"
  obtain es s where "run (isAPIEnabled' c) es (start apis (nat n)) = Some s" and "returned s"
    using pool_completes [OF pool_inv_start] by blast
  then have "CheckAllAPIs (Inr apis) (isAPIEnabled' c) n es = Some (Inr (allResults s))"
    by (simp add: CheckAllAPIs_def)
  then show "\<exists>schedule rs. CheckAllAPIs (Inr apis) (isAPIEnabled' c) n schedule = Some (Inr rs)"
    by blast
next
  fix schedule rs
  assume n: "1 \<le> n"
    and "CheckAllAPIs (Inr apis) (isAPIEnabled' c) n schedule = Some (Inr rs)"
  then obtain s where run: "run (isAPIEnabled' c) schedule (start apis (nat n)) = Some s"
    and r: "returned s" and rs: "rs = allResults s"
    by (auto simp: CheckAllAPIs_def split: option.splits if_splits)
  have inv: "pool_inv (isAPIEnabled' c) apis (nat n) s"
    using pool_inv_start run by (rule pool_inv_run)
  have pos: "0 < nat n" using n by simp
  have "size (mset (map Name rs)) = size (mset apis)"
    unfolding rs using pool_inv_returned(1) [OF inv r pos] by simp
  then show "length rs = length apis" by simp
  have "list_all (\<lambda>r. \<exists>now. r = checkSingleAPI (isAPIEnabled' c) now (Name r)) rs"
    unfolding rs using inv r pos by (rule pool_inv_returned)
  then show "list_all (\<lambda>r. Status r = ''ERROR'' \<longleftrightarrow> Error r \<noteq> []) rs"
    unfolding list_all_iff using status_error_iff by metis
qed

text \<open>
  One worker, one catalogue entry, and an endpoint that answers 500: the run returns the
  single errored result and no error.
\<close>

theorem probe_failures_isolated_witness:
  "(1::int) \<le> 1 \<and>
   CheckAllAPIs (Inr [''compute.googleapis.com'']) (isAPIEnabled' failing_checker) 1
     single_schedule =
   Some (Inr [zero_APIResult\<lparr>Name := ''compute.googleapis.com'', CheckedAt := 7,
                Error := ''API request failed with status: 500'', Status := ''ERROR''\<rparr>]) \<and>
   length [zero_APIResult\<lparr>Name := ''compute.googleapis.com'', CheckedAt := 7,
                Error := ''API request failed with status: 500'', Status := ''ERROR''\<rparr>] =
     length [''compute.googleapis.com'']"
proof -
  have n: "(1::int) \<le> 1" by simp
  have "\<forall>schedule rs. CheckAllAPIs (Inr [''compute.googleapis.com''])
            (isAPIEnabled' failing_checker) 1 schedule = Some (Inr rs) \<longrightarrow>
          length rs = length [''compute.googleapis.com'']"
    using probe_failures_isolated
      [where c = failing_checker and n = 1 and apis = "[''compute.googleapis.com'']"]
    by blast
  then show ?thesis using n failing_run by blast
qed

subsection \<open>C7: the catalogue repeats identifiers\<close>

text \<open>
  C7 fails on the code: the catalogue that \<open>getAvailableAPIs\<close> returns has 93 entries, its
  52nd and 53rd entries are both \<open>videointelligence.googleapis.com\<close>, and so its
  identifiers are not pairwise distinct. The static catalogue of the second copy of the
  checker is the same list without the repeated entries, and is distinct (lemmas
  \<open>getAvailableAPIsStatic_drops_repeats\<close> and \<open>getAvailableAPIsStatic_distinct\<close>).
\<close>

theorem catalogue_repeats_identifier:
  "getAvailableAPIs = Inr catalogue \<and> length catalogue = 93 \<and>
   catalogue ! 51 = ''videointelligence.googleapis.com'' \<and>
   catalogue ! 52 = ''videointelligence.googleapis.com'' \<and> \<not> distinct catalogue"
proof -
  have a: "catalogue ! 51 = ''videointelligence.googleapis.com''" by (simp add: catalogue_def)
  have b: "catalogue ! 52 = ''videointelligence.googleapis.com''" by (simp add: catalogue_def)
  have "\<not> distinct catalogue"
    using a b catalogue_length nth_eq_iff_index_eq [of catalogue 51 52] by auto
  then show ?thesis using a b by (simp add: getAvailableAPIs_def catalogue_length)
qed

subsection \<open>C8: no pricing means zero or default cost fields\<close>

text \<open>
  C8. In every result of \<open>checkSingleAPI\<close>, whatever the probe answered, \<open>HasPricing\<close> is
  false exactly when the cost is zero, the currency and the details are at their zero or
  default values, and \<open>UnlimitedCost\<close> is false.
\<close>

theorem hasPricing_false_iff_default:
  "HasPricing (CostInfo (checkSingleAPI probe now apiName)) = False \<longleftrightarrow>
     zero_or_default_costs (CostInfo (checkSingleAPI probe now apiName)) \<and>
     UnlimitedCost (CostInfo (checkSingleAPI probe now apiName)) = False"
proof (cases "probe apiName")
  case (Inl err)
  then show ?thesis
    by (simp add: CostInfo_checkSingleAPI zero_CostInfo_def zero_or_default_costs_def)
next
  case (Inr enabled)
  show ?thesis
  proof (cases apiName rule: getCostInfo_cases)
    case 1
    then show ?thesis using Inr
      by (simp add: CostInfo_checkSingleAPI default_CostInfo_def zero_or_default_costs_def)
  next
    case (2 c)
    then show ?thesis using Inr
      by (auto simp: CostInfo_checkSingleAPI zero_or_default_costs_def)
  qed
qed

subsection \<open>C9: the display name\<close>

text \<open>
  C9, as amended. When the probe of an identifier succeeds, the display name of the result
  is the mapped display name when the identifier has one and the identifier itself
  otherwise, and it is not empty unless the identifier is. When the probe fails, the
  display name of the result is empty.
\<close>

theorem displayName_resolved_unless_errored:
  "(case probe apiName of
      Inl err \<Rightarrow> DisplayName (checkSingleAPI probe now apiName) = []
    | Inr enabled \<Rightarrow>
        DisplayName (checkSingleAPI probe now apiName) =
          (case map_of displayNames apiName of Some d \<Rightarrow> d | None \<Rightarrow> apiName) \<and>
        (apiName \<noteq> [] \<longrightarrow> DisplayName (checkSingleAPI probe now apiName) \<noteq> []))"
proof (cases "probe apiName")
  case (Inl err)
  then show ?thesis
    by (simp add: checkSingleAPI_Inl [where probe = probe and a = apiName] zero_APIResult_def)
next
  case (Inr enabled)
  have "d \<noteq> []" if "map_of displayNames apiName = Some d" for d
    using map_of_SomeD [OF that] displayNames_nonempty by (auto simp: list_all_iff)
  then show ?thesis
    using Inr checkSingleAPI_Inr [where probe = probe and a = apiName, OF Inr, of now]
    by (auto simp: getAPIDisplayName_def split: option.splits)
qed

text \<open>An identifier without a mapped display name, probed by the simulation.\<close>

theorem displayName_resolved_unless_errored_witness:
  "''iam.googleapis.com'' \<noteq> [] \<and> isAPIEnabled ''iam.googleapis.com'' = Inr True \<and>
   DisplayName (checkSingleAPI isAPIEnabled 0 ''iam.googleapis.com'') = ''iam.googleapis.com''"
  using displayName_resolved_unless_errored
      [where probe = isAPIEnabled and apiName = "''iam.googleapis.com''" and now = 0]
  by (simp add: isAPIEnabled_def enabledAPIs_map_def displayNames_def)

text \<open>
  C9 as stated fails: the probe of \<open>compute.googleapis.com\<close> is answered with status 500,
  and the errored result has an empty display name, not \<open>Compute Engine API\<close>.
\<close>

theorem displayName_empty_when_errored:
  "getAPIDisplayName ''compute.googleapis.com'' = ''Compute Engine API'' \<and>
   Status (checkSingleAPI (isAPIEnabled' failing_checker) 0 ''compute.googleapis.com'') =
     ''ERROR'' \<and>
   DisplayName (checkSingleAPI (isAPIEnabled' failing_checker) 0 ''compute.googleapis.com'') = []"
  by (simp add: checkSingleAPI_Inl [where probe = "isAPIEnabled' failing_checker", OF failing_probe]
      zero_APIResult_def getAPIDisplayName_def displayNames_def)

subsection \<open>C10: the status fields agree\<close>

text \<open>
  C10. For either copy of the checker, the result of \<open>checkSingleAPI\<close> has status
  \<open>ENABLED\<close>, \<open>DISABLED\<close> or \<open>ERROR\<close>; the status is \<open>ERROR\<close> exactly when the error message
  is not empty; and when the error message is empty, the flag \<open>Enabled\<close> is set exactly
  when the status is \<open>ENABLED\<close>.
\<close>

theorem status_fields_coherent:
  "Status (checkSingleAPI (isAPIEnabled' c) now apiName) \<in> {''ENABLED'', ''DISABLED'', ''ERROR''} \<and>
   (Status (checkSingleAPI (isAPIEnabled' c) now apiName) = ''ERROR'' \<longleftrightarrow>
      Error (checkSingleAPI (isAPIEnabled' c) now apiName) \<noteq> []) \<and>
   (Error (checkSingleAPI (isAPIEnabled' c) now apiName) = [] \<longrightarrow>
      (Enabled (checkSingleAPI (isAPIEnabled' c) now apiName) \<longleftrightarrow>
       Status (checkSingleAPI (isAPIEnabled' c) now apiName) = ''ENABLED''))"
proof (cases "isAPIEnabled' c apiName")
  case (Inl err)
  then have "err \<noteq> []" by (rule probe_error_nonempty)
  then show ?thesis
    by (simp add: checkSingleAPI_Inl [where probe = "isAPIEnabled' c" and a = apiName, OF Inl]
        zero_APIResult_def)
next
  case (Inr enabled)
  from checkSingleAPI_Inr [where probe = "isAPIEnabled' c" and a = apiName, OF this, of now]
  show ?thesis by simp
qed

text \<open>Cloud Pub/Sub under the simulation: no error, flag unset, status \<open>DISABLED\<close>.\<close>

theorem status_fields_coherent_witness:
  "Error (checkSingleAPI (isAPIEnabled' simulated_checker) 0 ''pubsub.googleapis.com'') = [] \<and>
   Status (checkSingleAPI (isAPIEnabled' simulated_checker) 0 ''pubsub.googleapis.com'') =
     ''DISABLED'' \<and>
   (Enabled (checkSingleAPI (isAPIEnabled' simulated_checker) 0 ''pubsub.googleapis.com'') \<longleftrightarrow>
    Status (checkSingleAPI (isAPIEnabled' simulated_checker) 0 ''pubsub.googleapis.com'') =
      ''ENABLED'')"
  using status_fields_coherent
      [where c = simulated_checker and now = 0 and apiName = "''pubsub.googleapis.com''"]
  by (simp add: isAPIEnabled'_def simulated_checker_def NewGoogleAPIChecker_def probe_eval)

end
